theory Spec2Isabelle
  imports Main
begin

section \<open>HTTP helper wrappers (getJson, getText, postJson)\<close>

text \<open>
  The three helpers wrap one call of the \<^verbatim>\<open>request\<close> library in a promise. The
  library is external: it is a parameter of the model, a function from the arguments of
  the call to the triple \<^verbatim>\<open>(error, httpResponse, body)\<close> that it hands to the callback.
  \<^verbatim>\<open>error\<close> is tested for truthiness, so a missing (null or undefined) error is
  \<open>None\<close>; \<^verbatim>\<open>httpResponse\<close> may be absent as well. The body is of any type.
  A promise settles once: it resolves with the body, rejects with the transport error,
  or rejects with the text built from the status code.
\<close>

record Response =
  statusCode :: int

datatype ('e, 'b) settled =
    Resolved 'b
  | RejectedError 'e
  | RejectedMessage string

text \<open>
  String concatenation with a number renders it in decimal; status codes are integers.
\<close>

fun digitsOf :: "nat \<Rightarrow> string" where
  "digitsOf n =
     (if n < 10 then [''0123456789'' ! n]
      else digitsOf (n div 10) @ [''0123456789'' ! (n mod 10)])"

definition numberToString :: "int \<Rightarrow> string" where
  "numberToString i =
     (if i < 0 then CHR ''-'' # digitsOf (nat (- i)) else digitsOf (nat i))"

type_synonym ('e, 'b) callbackArgs = "'e option \<times> Response option \<times> 'b"

definition getJson ::
  "(string \<Rightarrow> bool \<Rightarrow> ('e, 'b) callbackArgs) \<Rightarrow> string \<Rightarrow> ('e, 'b) settled" where
  "getJson request_get url =
     (case request_get url True of (error, httpResponse, body) \<Rightarrow>
        (case error of
           Some e \<Rightarrow> RejectedError e
         | None \<Rightarrow>
             (case httpResponse of
                Some r \<Rightarrow>
                  if statusCode r \<noteq> 200
                  then RejectedMessage (''HTTP status code '' @ numberToString (statusCode r))
                  else Resolved body
              | None \<Rightarrow> Resolved body)))"

definition getText ::
  "(string \<Rightarrow> bool \<Rightarrow> ('e, 'b) callbackArgs) \<Rightarrow> string \<Rightarrow> ('e, 'b) settled" where
  "getText request_get url =
     (case request_get url False of (error, httpResponse, body) \<Rightarrow>
        (case error of
           Some e \<Rightarrow> RejectedError e
         | None \<Rightarrow>
             (case httpResponse of
                Some r \<Rightarrow>
                  if statusCode r \<noteq> 200
                  then RejectedMessage (''HTTP status code '' @ numberToString (statusCode r))
                  else Resolved body
              | None \<Rightarrow> Resolved body)))"

definition postJson ::
  "(string \<Rightarrow> 'c \<Rightarrow> bool \<Rightarrow> ('e, 'b) callbackArgs) \<Rightarrow> string \<Rightarrow> 'c \<Rightarrow> ('e, 'b) settled" where
  "postJson request_post url content =
     (case request_post url content True of (error, httpResponse, body) \<Rightarrow>
        (case error of
           Some e \<Rightarrow> RejectedError e
         | None \<Rightarrow>
             (case httpResponse of
                Some r \<Rightarrow>
                  if statusCode r > 204
                  then RejectedMessage (''HTTP status code '' @ numberToString (statusCode r))
                  else Resolved body
              | None \<Rightarrow> Resolved body)))"

text \<open>A request library for the examples: the answer depends on the URL only.\<close>

definition demoGet :: "string \<Rightarrow> bool \<Rightarrow> (string, string) callbackArgs" where
  "demoGet url json =
     (if url = ''ok'' then (None, Some \<lparr>statusCode = 200\<rparr>, ''body'')
      else if url = ''missing'' then (None, Some \<lparr>statusCode = 404\<rparr>, ''nothing here'')
      else if url = ''silent'' then (None, None, ''no response object'')
      else (Some ''ECONNREFUSED'', None, []))"

definition demoPost :: "string \<Rightarrow> string \<Rightarrow> bool \<Rightarrow> (string, string) callbackArgs" where
  "demoPost url content json =
     (if url = ''ok'' then (None, Some \<lparr>statusCode = 204\<rparr>, content)
      else if url = ''missing'' then (None, Some \<lparr>statusCode = 404\<rparr>, ''nothing here'')
      else if url = ''silent'' then (None, None, ''no response object'')
      else (Some ''ECONNREFUSED'', None, []))"

section \<open>The search debugger view: data\<close>

text \<open>
  \<^verbatim>\<open>SearchDebuggerView\<close> is a class with mutable fields, driven by callbacks of the
  editor host. The model passes the object explicitly: a value of the record
  \<open>SearchDebuggerView\<close> holds the fields, and every method takes the object and returns
  the updated one. The objects of the host that the view holds (the webview panel, the
  text editor and its document) are embedded in the record together with a log of the
  calls the view makes on them: \<open>posted\<close> lists the messages handed to
  \<^verbatim>\<open>webview.postMessage\<close>, \<open>revealCalls\<close> counts the calls of \<^verbatim>\<open>reveal\<close>
  on the panel, \<open>revealRangeCalls\<close> lists the calls of \<^verbatim>\<open>revealRange\<close> and
  \<open>lineAtCalls\<close> those of \<^verbatim>\<open>document.lineAt\<close>, each oldest first.

  Everything else outside the class is the record \<open>Host\<close>: the event sources, reached
  through references (natural numbers), the listeners registered with them, the
  configuration, the regular-expression engine, the dialogs and the plan report
  generator, and the logs of what the view shows to the user or leaves unhandled.

  An \<^verbatim>\<open>async\<close> method is modelled as running to its end when called and returning
  how its promise settles; handlers interleaving at an \<^verbatim>\<open>await\<close> are not modelled.
  \<^verbatim>\<open>console.log\<close> output is left out.

  A search state is opaque to the view but for its two identifiers; the field
  \<^verbatim>\<open>id\<close> is \<open>id_State\<close> here. A state id that arrives in a message may be null.
\<close>

record State =
  id_State :: int
  origId :: string

datatype error = TypeError | Thrown string

fun toString_error :: "error \<Rightarrow> string" where
  "toString_error TypeError = ''TypeError''"
| "toString_error (Thrown s) = s"

datatype outcome = Fulfilled | Rejected error

datatype payload =
    PStatus string "int option"
  | PState State
  | PStates "State list"
  | PText string
  | PNull

record Message =
  command :: string
  state :: payload

record WebviewPanel =
  visible :: bool
  posted :: "Message list"
  html :: string
  revealCalls :: nat

record Uri =
  fsPath :: string

datatype Range = Range nat nat nat nat

datatype TextEditorRevealType = Default | InCenter | InCenterIfOutsideViewport | AtTop

record TextLine =
  lineText :: string
  lineRange :: Range

record TextDocument =
  lineTexts :: "string list"
  isClosed :: bool
  lineAtCalls :: "nat list"

record TextEditor =
  document :: TextDocument
  revealRangeCalls :: "(Range \<times> TextEditorRevealType) list"

type_synonym DomainInfo = string
type_synonym ProblemInfo = string
type_synonym Plan = string

datatype Disposable = Disposable nat

record SearchDebuggerView =
  webViewPanel :: "WebviewPanel option"
  subscriptions :: "Disposable list"
  search :: "nat option"
  stateChangedWhileViewHidden :: bool
  stateLogFile :: "Uri option"
  stateLogEditor :: "TextEditor option"
  stateLogLineCache :: "string \<rightharpoonup> nat"
  domain :: "DomainInfo option"
  problem :: "ProblemInfo option"
  debuggerState :: "bool option"
  port :: "int option"

text \<open>
  Modelled from the spec: \<^verbatim>\<open>StateResolver\<close> (the search event source) is not among the
  sources. It is taken by its capabilities: a point lookup by state id, a snapshot of
  all known states, and four subscription members. A subscription registers a listener
  for one event kind of one source and returns a \<^verbatim>\<open>Disposable\<close>; disposing it removes
  that registration. The registrations of all sources are the list \<open>listeners\<close> of the
  host, each with the handle its \<^verbatim>\<open>Disposable\<close> carries.
\<close>

record StateResolver =
  getState :: "int option \<Rightarrow> State option"
  getStates :: "State list"

datatype eventKind = StateAdded | StateUpdated | BetterState | PlanFound

datatype listener = AddState | Update | DisplayBetterState | DisplayPlan | Foreign nat

datatype event =
    StateAddedEvent State
  | StateUpdatedEvent State
  | BetterStateEvent State
  | PlanFoundEvent "State list"

type_synonym RegExpMatch = "string option list option"

record Host =
  resolvers :: "nat \<Rightarrow> StateResolver"
  listeners :: "(nat \<times> nat \<times> eventKind \<times> listener) list"
  nextHandle :: nat
  stateLogPattern :: "string option"
  newRegExp :: "string \<Rightarrow> error + (string \<Rightarrow> RegExpMatch)"
  createWebviewPanel :: "bool \<Rightarrow> WebviewPanel"
  getWebViewHtml :: "error + string"
  showOpenDialog :: "Uri list option"
  openTextDocument :: "Uri option \<Rightarrow> error + TextDocument"
  showTextDocument :: "TextDocument \<Rightarrow> error + TextEditor"
  convert :: "DomainInfo option \<Rightarrow> ProblemInfo option \<Rightarrow> State \<Rightarrow> error + Plan"
  generateHtml :: "Plan list \<Rightarrow> error + string"
  fetchThrows :: "string \<Rightarrow> error option"
  planimationRequests :: "string list"
  executedCommands :: "string list"
  errorMessages :: "string list"
  warnings :: "string list"
  unhandledRejections :: "error list"

section \<open>The search debugger view: relaying to the webview\<close>

definition isVisible :: "SearchDebuggerView \<Rightarrow> bool" where
  "isVisible view = (case webViewPanel view of None \<Rightarrow> False | Some p \<Rightarrow> visible p)"

definition postMessage :: "Message \<Rightarrow> SearchDebuggerView \<Rightarrow> SearchDebuggerView" where
  "postMessage message view =
     (case webViewPanel view of
        None \<Rightarrow> view
      | Some p \<Rightarrow>
          (let view1 = view\<lparr>webViewPanel := Some (p\<lparr>posted := posted p @ [message]\<rparr>)\<rparr>
           in if \<not> visible p then view1\<lparr>stateChangedWhileViewHidden := True\<rparr> else view1))"

definition debuggerStateMessage :: "SearchDebuggerView \<Rightarrow> Message" where
  "debuggerStateMessage view =
     \<lparr>command = ''debuggerState'',
      state = PStatus (if debuggerState view = Some True then ''on'' else ''off'') (port view)\<rparr>"

definition showDebuggerState :: "SearchDebuggerView \<Rightarrow> SearchDebuggerView" where
  "showDebuggerState view = postMessage (debuggerStateMessage view) view"

definition setDebuggerState :: "bool \<Rightarrow> int \<Rightarrow> SearchDebuggerView \<Rightarrow> SearchDebuggerView" where
  "setDebuggerState on port' view =
     showDebuggerState (view\<lparr>debuggerState := Some on, port := Some port'\<rparr>)"

definition setDomainAndProblem ::
  "DomainInfo \<Rightarrow> ProblemInfo \<Rightarrow> SearchDebuggerView \<Rightarrow> SearchDebuggerView" where
  "setDomainAndProblem domain' problem' view =
     view\<lparr>domain := Some domain', problem := Some problem'\<rparr>"

definition addState :: "State \<Rightarrow> SearchDebuggerView \<Rightarrow> SearchDebuggerView" where
  "addState newState view = postMessage \<lparr>command = ''stateAdded'', state = PState newState\<rparr> view"

definition update :: "State \<Rightarrow> SearchDebuggerView \<Rightarrow> SearchDebuggerView" where
  "update state' view = postMessage \<lparr>command = ''stateUpdated'', state = PState state'\<rparr> view"

definition allStates :: "Host \<Rightarrow> SearchDebuggerView \<Rightarrow> State list" where
  "allStates h view = (case search view of None \<Rightarrow> [] | Some r \<Rightarrow> getStates (resolvers h r))"

definition showAllStates :: "Host \<Rightarrow> SearchDebuggerView \<Rightarrow> SearchDebuggerView" where
  "showAllStates h view =
     postMessage \<lparr>command = ''showAllStates'', state = PStates (allStates h view)\<rparr> view"

definition displayPlan :: "State list \<Rightarrow> SearchDebuggerView \<Rightarrow> SearchDebuggerView" where
  "displayPlan planStates view =
     postMessage \<lparr>command = ''showPlan'', state = PStates planStates\<rparr> view"

definition changedViewState ::
  "Host \<Rightarrow> WebviewPanel \<Rightarrow> SearchDebuggerView \<Rightarrow> SearchDebuggerView" where
  "changedViewState h webViewPanel' view =
     (if visible webViewPanel' then
        (let view1 = showDebuggerState view;
             view2 = (if stateChangedWhileViewHidden view1 then showAllStates h view1 else view1)
         in view2\<lparr>stateChangedWhileViewHidden := False\<rparr>)
      else view)"

definition clear :: "SearchDebuggerView \<Rightarrow> SearchDebuggerView" where
  "clear view =
     (postMessage \<lparr>command = ''clear'', state = PText ''n/a''\<rparr> view)
       \<lparr>stateLogLineCache := Map.empty, domain := None, problem := None\<rparr>"

definition showStatePlan ::
  "Host \<Rightarrow> int option \<Rightarrow> SearchDebuggerView \<Rightarrow> outcome \<times> SearchDebuggerView" where
  "showStatePlan h stateId view =
     (case search view of
        None \<Rightarrow> (Fulfilled, view)
      | Some r \<Rightarrow>
          (case stateId of
             None \<Rightarrow> (Fulfilled, view)
           | Some i \<Rightarrow>
               (case getState (resolvers h r) (Some i) of
                  None \<Rightarrow> (Fulfilled, view)
                | Some state' \<Rightarrow>
                    (case convert h (domain view) (problem view) state' of
                       Inl ex \<Rightarrow> (Rejected ex, view)
                     | Inr statePlan \<Rightarrow>
                         (case webViewPanel view of
                            None \<Rightarrow> (Rejected TypeError, view)
                          | Some p \<Rightarrow>
                              (case generateHtml h [statePlan] of
                                 Inl ex \<Rightarrow> (Rejected ex, view)
                               | Inr planHtml \<Rightarrow>
                                   (Fulfilled,
                                    postMessage
                                      \<lparr>command = ''showStatePlan'', state = PText planHtml\<rparr>
                                      view)))))))"

section \<open>The search debugger view: the state log\<close>

text \<open>
  \<^verbatim>\<open>toggleStateLog\<close>. The file dialog answers with nothing (cancelled) or with a list
  of files, of which the first is taken; indexing an empty list gives undefined.
\<close>

definition toggleStateLog :: "Host \<Rightarrow> SearchDebuggerView \<Rightarrow> outcome \<times> SearchDebuggerView" where
  "toggleStateLog h view =
     (if stateLogFile view \<noteq> None then
        (Fulfilled, postMessage \<lparr>command = ''stateLog'', state = PNull\<rparr> view)
      else
        (case showOpenDialog h of
           None \<Rightarrow> (Fulfilled, view)
         | Some selectedUri \<Rightarrow>
             (let view1 = view\<lparr>stateLogFile :=
                            (case selectedUri of [] \<Rightarrow> None | u # _ \<Rightarrow> Some u)\<rparr>
              in case openTextDocument h (stateLogFile view1) of
                   Inl ex \<Rightarrow> (Rejected ex, view1)
                 | Inr doc \<Rightarrow>
                     (case showTextDocument h doc of
                        Inl ex \<Rightarrow> (Rejected ex, view1)
                      | Inr ed \<Rightarrow>
                          (let view2 = view1\<lparr>stateLogEditor := Some ed\<rparr>
                           in case stateLogFile view2 of
                                None \<Rightarrow> (Rejected TypeError, view2)
                              | Some f \<Rightarrow>
                                  (Fulfilled,
                                   postMessage
                                     \<lparr>command = ''stateLog'', state = PText (fsPath f)\<rparr>
                                     view2))))))"

text \<open>
  The document: \<^verbatim>\<open>lineAt\<close> throws outside the document; the range of a line runs from
  its first to its last character. \<^verbatim>\<open>revealRange\<close> scrolls the editor.
\<close>

definition lineCount :: "TextDocument \<Rightarrow> nat" where
  "lineCount doc = length (lineTexts doc)"

definition lineAt :: "TextDocument \<Rightarrow> nat \<Rightarrow> TextLine option" where
  "lineAt doc i =
     (if i < length (lineTexts doc)
      then Some \<lparr>lineText = lineTexts doc ! i,
                 lineRange = Range i 0 i (length (lineTexts doc ! i))\<rparr>
      else None)"

definition lineAtCalled :: "nat \<Rightarrow> TextEditor \<Rightarrow> TextEditor" where
  "lineAtCalled i ed =
     ed\<lparr>document := (document ed)\<lparr>lineAtCalls := lineAtCalls (document ed) @ [i]\<rparr>\<rparr>"

definition revealRange :: "Range \<Rightarrow> TextEditorRevealType \<Rightarrow> TextEditor \<Rightarrow> TextEditor" where
  "revealRange r t ed = ed\<lparr>revealRangeCalls := revealRangeCalls ed @ [(r, t)]\<rparr>"

text \<open>
  \<^verbatim>\<open>patternMatch && patternMatch[1] === state.origId\<close>: the match is null or the list of
  the whole match and the capture groups, a group that took no part being undefined.
\<close>

definition firstGroupIs :: "RegExpMatch \<Rightarrow> string \<Rightarrow> bool" where
  "firstGroupIs patternMatch oid =
     (case patternMatch of
        None \<Rightarrow> False
      | Some groups \<Rightarrow> (case groups of _ # g # _ \<Rightarrow> g = Some oid | _ \<Rightarrow> False))"

definition editorLineCount :: "SearchDebuggerView \<Rightarrow> nat" where
  "editorLineCount view =
     (case stateLogEditor view of None \<Rightarrow> 0 | Some ed \<Rightarrow> lineCount (document ed))"

text \<open>The \<^verbatim>\<open>for\<close> loop of \<^verbatim>\<open>scrollStateLog\<close>, from \<open>lineIdx\<close> on.\<close>

function scanStateLog ::
  "Host \<Rightarrow> string \<Rightarrow> string \<Rightarrow> nat \<Rightarrow> SearchDebuggerView \<Rightarrow> outcome \<times> SearchDebuggerView" where
  "scanStateLog h pattern oid lineIdx view =
     (case stateLogEditor view of
        None \<Rightarrow> (Rejected TypeError, view)
      | Some ed \<Rightarrow>
          if lineIdx < lineCount (document ed) then
            (case lineAt (document ed) lineIdx of
               None \<Rightarrow> (Rejected (Thrown ''Illegal value for line''), view)
             | Some logLine \<Rightarrow>
                 (let ed1 = lineAtCalled lineIdx ed;
                      view1 = view\<lparr>stateLogEditor := Some ed1\<rparr>
                  in case newRegExp h pattern of
                       Inl ex \<Rightarrow> (Rejected ex, view1)
                     | Inr re \<Rightarrow>
                         if firstGroupIs (re (lineText logLine)) oid then
                           (Fulfilled,
                            view1\<lparr>stateLogEditor :=
                                     Some (revealRange (lineRange logLine) AtTop ed1),
                                   stateLogLineCache := (stateLogLineCache view1)(oid \<mapsto> lineIdx)\<rparr>)
                         else scanStateLog h pattern oid (Suc lineIdx) view1))
          else (Fulfilled, view))"
  by pat_completeness auto
termination
  by (relation "measure (\<lambda>(h, pattern, oid, lineIdx, view). editorLineCount view - lineIdx)")
    (auto simp: editorLineCount_def lineCount_def lineAtCalled_def)

declare scanStateLog.simps [simp del]

definition configuredPattern :: "Host \<Rightarrow> string" where
  "configuredPattern h = (case stateLogPattern h of None \<Rightarrow> [] | Some p \<Rightarrow> p)"

definition scrollStateLog ::
  "Host \<Rightarrow> int option \<Rightarrow> SearchDebuggerView \<Rightarrow> outcome \<times> SearchDebuggerView" where
  "scrollStateLog h stateId view =
     (case stateLogFile view of
        None \<Rightarrow> (Fulfilled, view)
      | Some f \<Rightarrow>
     (case stateLogEditor view of
        None \<Rightarrow> (Fulfilled, view)
      | Some ed \<Rightarrow>
     (case search view of
        None \<Rightarrow> (Fulfilled, view)
      | Some r \<Rightarrow>
     (case getState (resolvers h r) stateId of
        None \<Rightarrow> (Fulfilled, view)
      | Some state' \<Rightarrow>
          (case (if isClosed (document ed)
                 then (case showTextDocument h (document ed) of
                         Inl ex \<Rightarrow> Inl ex
                       | Inr ed' \<Rightarrow> Inr (view\<lparr>stateLogEditor := Some ed'\<rparr>))
                 else Inr view) of
             Inl ex \<Rightarrow> (Rejected ex, view)
           | Inr view1 \<Rightarrow>
               (case stateLogLineCache view1 (origId state') of
                  Some cachedLineId \<Rightarrow>
                    (if cachedLineId \<noteq> 0 then
                       (case stateLogEditor view1 of
                          None \<Rightarrow> (Rejected TypeError, view1)
                        | Some ed1 \<Rightarrow>
                            (Fulfilled,
                             view1\<lparr>stateLogEditor :=
                                      Some (revealRange
                                              (Range cachedLineId 0 (cachedLineId + 1) 0)
                                              AtTop ed1)\<rparr>))
                     else (Fulfilled, view1))
                | None \<Rightarrow>
                    scanStateLog h (configuredPattern h) (origId state') 0 view1))))))"

section \<open>The search debugger view: inbound commands\<close>

record InboundMessage =
  command_in :: string
  stateId_in :: "int option"
  stateInfo_in :: string

text \<open>
  A promise that is rejected and never awaited is lost to the caller; the host records
  it as an unhandled rejection.
\<close>

definition dropPromise :: "outcome \<Rightarrow> Host \<Rightarrow> Host" where
  "dropPromise p h =
     (case p of
        Fulfilled \<Rightarrow> h
      | Rejected ex \<Rightarrow> h\<lparr>unhandledRejections := unhandledRejections h @ [ex]\<rparr>)"

text \<open>
  \<^verbatim>\<open>sendRequestToPlanimationApi\<close> builds the form and starts the request; the answer
  arrives later and is posted by \<open>planimationResponse\<close>. What the form and fetch
  libraries may throw while the request is built is the parameter \<open>fetchThrows\<close>.
\<close>

definition sendRequestToPlanimationApi :: "string \<Rightarrow> Host \<Rightarrow> error option \<times> Host" where
  "sendRequestToPlanimationApi subGoal h =
     (case fetchThrows h subGoal of
        Some ex \<Rightarrow> (Some ex, h)
      | None \<Rightarrow> (None, h\<lparr>planimationRequests := planimationRequests h @ [subGoal]\<rparr>))"

definition planimationResponse :: "string \<Rightarrow> SearchDebuggerView \<Rightarrow> SearchDebuggerView" where
  "planimationResponse src view =
     postMessage \<lparr>command = ''getPNGOfNode'', state = PText src\<rparr> view"

definition executeCommand :: "string \<Rightarrow> Host \<Rightarrow> Host" where
  "executeCommand c h = h\<lparr>executedCommands := executedCommands h @ [c]\<rparr>"

definition showErrorMessage :: "string \<Rightarrow> Host \<Rightarrow> Host" where
  "showErrorMessage m h = h\<lparr>errorMessages := errorMessages h @ [m]\<rparr>"

definition handleMessage ::
  "InboundMessage \<Rightarrow> SearchDebuggerView \<Rightarrow> Host \<Rightarrow> SearchDebuggerView \<times> Host" where
  "handleMessage message view h =
     (if command_in message = ''onload'' then (showDebuggerState view, h)
      else if command_in message = ''stateSelected'' then
        (case showStatePlan h (stateId_in message) view of (p1, view1) \<Rightarrow>
         let h1 = dropPromise p1 h in
         case scrollStateLog h1 (stateId_in message) view1 of (p2, view2) \<Rightarrow>
         let h2 = dropPromise p2 h1 in
         case sendRequestToPlanimationApi (stateInfo_in message) h2 of
           (None, h3) \<Rightarrow> (view2, h3)
         | (Some ex, h3) \<Rightarrow>
             (view2,
              showErrorMessage (''Error while displaying state-plan: '' @ toString_error ex) h3))
      else if command_in message = ''startDebugger'' then
        (view\<lparr>stateLogLineCache := Map.empty\<rparr>, executeCommand ''pddl.searchDebugger.start'' h)
      else if command_in message = ''stopDebugger'' then
        (view, executeCommand ''pddl.searchDebugger.stop'' h)
      else if command_in message = ''reset'' then
        (view, executeCommand ''pddl.searchDebugger.reset'' h)
      else if command_in message = ''toggleStateLog'' then
        (case toggleStateLog h view of (p, view1) \<Rightarrow> (view1, dropPromise p h))
      else
        (view, h\<lparr>warnings := warnings h @ [''Unexpected command: '' @ command_in message]\<rparr>))"

text \<open>
  \<^verbatim>\<open>displayBetterState\<close> wraps the call of the asynchronous \<^verbatim>\<open>showStatePlan\<close> in a
  \<^verbatim>\<open>try\<close>; the call returns a promise and throws nothing.
\<close>

definition displayBetterState ::
  "State \<Rightarrow> SearchDebuggerView \<Rightarrow> Host \<Rightarrow> SearchDebuggerView \<times> Host" where
  "displayBetterState state' view h =
     (case showStatePlan h (Some (id_State state')) view of
        (p, view1) \<Rightarrow> (view1, dropPromise p h))"

section \<open>The search debugger view: observing an event source\<close>

definition subscribe :: "nat \<Rightarrow> eventKind \<Rightarrow> listener \<Rightarrow> Host \<Rightarrow> Disposable \<times> Host" where
  "subscribe source kind l h =
     (Disposable (nextHandle h),
      h\<lparr>listeners := listeners h @ [(nextHandle h, source, kind, l)],
        nextHandle := Suc (nextHandle h)\<rparr>)"

fun dispose :: "Disposable \<Rightarrow> Host \<Rightarrow> Host" where
  "dispose (Disposable n) h = h\<lparr>listeners := filter (\<lambda>r. fst r \<noteq> n) (listeners h)\<rparr>"

definition observe :: "nat \<Rightarrow> SearchDebuggerView \<Rightarrow> Host \<Rightarrow> SearchDebuggerView \<times> Host" where
  "observe search' view h =
     (let view0 = view\<lparr>search := Some search'\<rparr>;
          h0 = fold dispose (subscriptions view0) h;
          view1 = view0\<lparr>subscriptions := []\<rparr>;
          (d1, h1) = subscribe search' StateAdded AddState h0;
          view2 = view1\<lparr>subscriptions := subscriptions view1 @ [d1]\<rparr>;
          (d2, h2) = subscribe search' StateUpdated Update h1;
          view3 = view2\<lparr>subscriptions := subscriptions view2 @ [d2]\<rparr>;
          (d3, h3) = subscribe search' BetterState DisplayBetterState h2;
          view4 = view3\<lparr>subscriptions := subscriptions view3 @ [d3]\<rparr>;
          (d4, h4) = subscribe search' PlanFound DisplayPlan h3;
          view5 = view4\<lparr>subscriptions := subscriptions view4 @ [d4]\<rparr>
      in (view5, h4))"

text \<open>
  An event source fires an event: every listener registered with that source for the
  kind of the event is called, in the order of registration. The four listeners of the
  view call its methods; a listener of another component leaves the view alone.
\<close>

fun kindOf :: "event \<Rightarrow> eventKind" where
  "kindOf (StateAddedEvent _) = StateAdded"
| "kindOf (StateUpdatedEvent _) = StateUpdated"
| "kindOf (BetterStateEvent _) = BetterState"
| "kindOf (PlanFoundEvent _) = PlanFound"

fun deliver ::
  "event \<Rightarrow> listener \<Rightarrow> SearchDebuggerView \<times> Host \<Rightarrow> SearchDebuggerView \<times> Host" where
  "deliver (StateAddedEvent s) AddState (view, h) = (addState s view, h)"
| "deliver (StateUpdatedEvent s) Update (view, h) = (update s view, h)"
| "deliver (BetterStateEvent s) DisplayBetterState (view, h) = displayBetterState s view h"
| "deliver (PlanFoundEvent ss) DisplayPlan (view, h) = (displayPlan ss view, h)"
| "deliver _ _ (view, h) = (view, h)"

definition listenersOf :: "Host \<Rightarrow> nat \<Rightarrow> eventKind \<Rightarrow> listener list" where
  "listenersOf h source kind =
     map (\<lambda>r. snd (snd (snd r)))
       (filter (\<lambda>r. fst (snd r) = source \<and> fst (snd (snd r)) = kind) (listeners h))"

definition fire ::
  "nat \<Rightarrow> event \<Rightarrow> SearchDebuggerView \<times> Host \<Rightarrow> SearchDebuggerView \<times> Host" where
  "fire source ev w = fold (deliver ev) (listenersOf (snd w) source (kindOf ev)) w"

section \<open>The search debugger view: the panel\<close>

definition createDebugView ::
  "Host \<Rightarrow> bool \<Rightarrow> SearchDebuggerView \<Rightarrow> outcome \<times> SearchDebuggerView" where
  "createDebugView h showOnTop view =
     (let panel = createWebviewPanel h showOnTop;
          view1 = view\<lparr>webViewPanel := Some panel\<rparr>
      in case getWebViewHtml h of
           Inl ex \<Rightarrow> (Rejected ex, view1)
         | Inr html' \<Rightarrow> (Fulfilled, view1\<lparr>webViewPanel := Some (panel\<lparr>html := html'\<rparr>)\<rparr>))"

definition showDebugView :: "Host \<Rightarrow> SearchDebuggerView \<Rightarrow> outcome \<times> SearchDebuggerView" where
  "showDebugView h view =
     (case webViewPanel view of
        Some p \<Rightarrow> (Fulfilled, view\<lparr>webViewPanel := Some (p\<lparr>revealCalls := Suc (revealCalls p)\<rparr>)\<rparr>)
      | None \<Rightarrow> createDebugView h False view)"

text \<open>The callback registered with \<^verbatim>\<open>onDidDispose\<close>.\<close>

definition panelDisposed :: "SearchDebuggerView \<Rightarrow> SearchDebuggerView" where
  "panelDisposed view = view\<lparr>webViewPanel := None\<rparr>"

section \<open>Everything the host can make the view do\<close>

text \<open>
  The entry points of the class: its public methods, the callbacks it registers with
  the panel and with the event source, and the answer of the animation service.
\<close>

datatype action =
    Observe nat
  | SetDomainAndProblem DomainInfo ProblemInfo
  | ShowDebugView
  | CreateDebugView bool
  | PanelDisposed
  | ChangedViewState WebviewPanel
  | HandleMessage InboundMessage
  | SetDebuggerState bool int
  | AddStateCall State
  | UpdateCall State
  | ShowAllStates
  | SendRequestToPlanimationApi string
  | PlanimationResponse string
  | DisplayBetterStateCall State
  | DisplayPlanCall "State list"
  | ShowStatePlan "int option"
  | Clear
  | ToggleStateLog
  | ScrollStateLog "int option"
  | Fire nat event

fun perform :: "action \<Rightarrow> SearchDebuggerView \<times> Host \<Rightarrow> SearchDebuggerView \<times> Host" where
  "perform (Observe r) (view, h) = observe r view h"
| "perform (SetDomainAndProblem d p) (view, h) = (setDomainAndProblem d p view, h)"
| "perform ShowDebugView (view, h) =
     (case showDebugView h view of (p, view1) \<Rightarrow> (view1, dropPromise p h))"
| "perform (CreateDebugView showOnTop) (view, h) =
     (case createDebugView h showOnTop view of (p, view1) \<Rightarrow> (view1, dropPromise p h))"
| "perform PanelDisposed (view, h) = (panelDisposed view, h)"
| "perform (ChangedViewState panel) (view, h) = (changedViewState h panel view, h)"
| "perform (HandleMessage m) (view, h) = handleMessage m view h"
| "perform (SetDebuggerState on p) (view, h) = (setDebuggerState on p view, h)"
| "perform (AddStateCall s) (view, h) = (addState s view, h)"
| "perform (UpdateCall s) (view, h) = (update s view, h)"
| "perform ShowAllStates (view, h) = (showAllStates h view, h)"
| "perform (SendRequestToPlanimationApi g) (view, h) =
     (view, snd (sendRequestToPlanimationApi g h))"
| "perform (PlanimationResponse src) (view, h) = (planimationResponse src view, h)"
| "perform (DisplayBetterStateCall s) (view, h) = displayBetterState s view h"
| "perform (DisplayPlanCall ss) (view, h) = (displayPlan ss view, h)"
| "perform (ShowStatePlan i) (view, h) =
     (case showStatePlan h i view of (p, view1) \<Rightarrow> (view1, dropPromise p h))"
| "perform Clear (view, h) = (clear view, h)"
| "perform ToggleStateLog (view, h) =
     (case toggleStateLog h view of (p, view1) \<Rightarrow> (view1, dropPromise p h))"
| "perform (ScrollStateLog i) (view, h) =
     (case scrollStateLog h i view of (p, view1) \<Rightarrow> (view1, dropPromise p h))"
| "perform (Fire r ev) (view, h) = fire r ev (view, h)"

section \<open>A host and a view for the examples\<close>

definition demoMatch :: "string \<Rightarrow> RegExpMatch" where
  "demoMatch line =
     (if line = ''id=42 expanded'' then Some [Some ''id=42'', Some ''42'']
      else if line = ''id=42 expanded again'' then Some [Some ''id=42'', Some ''42'']
      else if line = ''id=7 expanded'' then Some [Some ''id=7'', Some ''7'']
      else None)"

definition demoNewRegExp :: "string \<Rightarrow> error + (string \<Rightarrow> RegExpMatch)" where
  "demoNewRegExp pattern =
     (if pattern = ''id=([0-9]+)'' then Inr demoMatch
      else if pattern = [] then Inr (\<lambda>line. Some [Some []])
      else Inl (Thrown ''SyntaxError''))"

definition demoStates :: "State list" where
  "demoStates = [\<lparr>id_State = 1, origId = ''42''\<rparr>, \<lparr>id_State = 2, origId = ''7''\<rparr>]"

definition demoResolver :: "State list \<Rightarrow> StateResolver" where
  "demoResolver ss =
     \<lparr>getState = (\<lambda>i. find (\<lambda>s. Some (id_State s) = i) ss), getStates = ss\<rparr>"

definition demoPanel :: "bool \<Rightarrow> WebviewPanel" where
  "demoPanel vis = \<lparr>visible = vis, posted = [], html = [], revealCalls = 0\<rparr>"

definition demoDocument :: "string list \<Rightarrow> TextDocument" where
  "demoDocument ls = \<lparr>lineTexts = ls, isClosed = False, lineAtCalls = []\<rparr>"

definition demoEditor :: "string list \<Rightarrow> TextEditor" where
  "demoEditor ls = \<lparr>document = demoDocument ls, revealRangeCalls = []\<rparr>"

definition demoHost :: Host where
  "demoHost =
     \<lparr>resolvers = (\<lambda>r. if r = 0 then demoResolver demoStates else demoResolver []),
      listeners = [],
      nextHandle = 0,
      stateLogPattern = Some ''id=([0-9]+)'',
      newRegExp = demoNewRegExp,
      createWebviewPanel = (\<lambda>showOnTop. demoPanel True),
      getWebViewHtml = Inr ''<html/>'',
      showOpenDialog = Some [\<lparr>fsPath = ''planner.log''\<rparr>],
      openTextDocument = (\<lambda>u. Inr (demoDocument [''a:1'', ''id=42 expanded'', ''b''])),
      showTextDocument = (\<lambda>doc. Inr \<lparr>document = doc\<lparr>isClosed := False\<rparr>, revealRangeCalls = []\<rparr>),
      convert = (\<lambda>d p s. Inr (origId s)),
      generateHtml = (\<lambda>plans. Inr (concat plans)),
      fetchThrows = (\<lambda>subGoal. None),
      planimationRequests = [],
      executedCommands = [],
      errorMessages = [],
      warnings = [],
      unhandledRejections = []\<rparr>"

text \<open>The object as the constructor leaves it.\<close>

definition newView :: SearchDebuggerView where
  "newView =
     \<lparr>webViewPanel = None, subscriptions = [], search = None,
      stateChangedWhileViewHidden = False, stateLogFile = None, stateLogEditor = None,
      stateLogLineCache = Map.empty, domain = None, problem = None,
      debuggerState = None, port = None\<rparr>"

text \<open>
  A view in the middle of a session: a panel, event source 0 observed, and a log file
  of the given lines bound.
\<close>

definition demoView :: "bool \<Rightarrow> string list \<Rightarrow> SearchDebuggerView" where
  "demoView vis ls =
     newView\<lparr>webViewPanel := Some (demoPanel vis), search := Some 0,
             stateLogFile := Some \<lparr>fsPath = ''planner.log''\<rparr>,
             stateLogEditor := Some (demoEditor ls)\<rparr>"

text \<open>Two logs: one names state 42 on lines 3 and 7, the other on line 0.\<close>

definition repeatedLog :: "string list" where
  "repeatedLog =
     [''a'', ''b'', ''c'', ''id=42 expanded'', ''d'', ''e'', ''f'', ''id=42 expanded again'']"

definition zeroLog :: "string list" where
  "zeroLog = [''id=42 expanded'', ''b'']"

text \<open>The host shows or hides the panel.\<close>

definition panelShown :: "bool \<Rightarrow> SearchDebuggerView \<Rightarrow> SearchDebuggerView" where
  "panelShown vis view =
     view\<lparr>webViewPanel := map_option (\<lambda>p. p\<lparr>visible := vis\<rparr>) (webViewPanel view)\<rparr>"

text \<open>
  A host on which another component already listens to event source 1; the view as it
  is after observing source 1 and then source 2 there.
\<close>

definition sharedHost :: Host where
  "sharedHost = demoHost\<lparr>listeners := [(0, 1, StateAdded, Foreign 9)], nextHandle := 1\<rparr>"

definition twiceObserved :: "SearchDebuggerView \<times> Host" where
  "twiceObserved =
     observe 2 (fst (observe 1 newView sharedHost)) (snd (observe 1 newView sharedHost))"

text \<open>
  The panel is hidden, two states are added, then the host shows the panel:
  \<open>shownPanel\<close> is the panel as it is then. By that time the event source knows a
  third state (\<open>laterHost\<close>).
\<close>

definition laterHost :: Host where
  "laterHost =
     demoHost\<lparr>resolvers := (\<lambda>r. demoResolver (\<lparr>id_State = 3, origId = ''9''\<rparr> # demoStates))\<rparr>"

definition hiddenThenShown :: SearchDebuggerView where
  "hiddenThenShown =
     panelShown True
       (addState \<lparr>id_State = 2, origId = ''7''\<rparr>
         (addState \<lparr>id_State = 1, origId = ''42''\<rparr> (demoView False zeroLog)))"

definition shownPanel :: WebviewPanel where
  "shownPanel =
     \<lparr>visible = True,
      posted = [\<lparr>command = ''stateAdded'', state = PState \<lparr>id_State = 1, origId = ''42''\<rparr>\<rparr>,
                \<lparr>command = ''stateAdded'', state = PState \<lparr>id_State = 2, origId = ''7''\<rparr>\<rparr>],
      html = [], revealCalls = 0\<rparr>"

text \<open>
  Two hosts on which a step of the stateSelected action fails: the report generator
  rejects, or the configured pattern is not a regular expression.
\<close>

definition failingReportHost :: Host where
  "failingReportHost = demoHost\<lparr>generateHtml := (\<lambda>plans. Inl (Thrown ''report failed''))\<rparr>"

definition badPatternHost :: Host where
  "badPatternHost = demoHost\<lparr>stateLogPattern := Some ''(''\<rparr>"

definition selectState1 :: InboundMessage where
  "selectState1 =
     \<lparr>command_in = ''stateSelected'', stateId_in = Some 1, stateInfo_in = ''(visited loc1_1)''\<rparr>"

section \<open>Notions used in the proofs\<close>

text \<open>A listener of the view itself, as opposed to one of another component.\<close>

fun ownListener :: "listener \<Rightarrow> bool" where
  "ownListener (Foreign _) = False"
| "ownListener _ = True"

text \<open>
  \<open>sent view view'\<close>: the panel of \<open>view'\<close> is that of \<open>view\<close> with some messages
  posted to it, and if the pending flag has been raised on the way, a message was
  posted while the panel existed and was hidden.
\<close>

definition sent :: "SearchDebuggerView \<Rightarrow> SearchDebuggerView \<Rightarrow> bool" where
  "sent view view' \<longleftrightarrow>
     (\<exists>ms. webViewPanel view' =
             map_option (\<lambda>p. p\<lparr>posted := posted p @ ms\<rparr>) (webViewPanel view)
        \<and> (stateChangedWhileViewHidden view' \<and> \<not> stateChangedWhileViewHidden view
             \<longrightarrow> ms \<noteq> [] \<and> (\<exists>p. webViewPanel view = Some p \<and> \<not> visible p)))"

section \<open>Properties of the HTTP helpers\<close>

lemma numberToString_404: "numberToString 404 = ''404''"
  by code_simp

text \<open>
  Claim C8. Whenever the request library hands a response object to the callback,
  \<^verbatim>\<open>getJson\<close> and \<^verbatim>\<open>getText\<close> resolve with the body exactly when there is no
  transport error and the status code is 200, and \<^verbatim>\<open>postJson\<close> resolves with the body
  exactly when there is no transport error and the status code is at most 204. Otherwise
  each rejects: with the transport error when there is one, else with the text
  "HTTP status code " followed by the code.
\<close>

theorem http_helpers_resolve_exactly_on_success:
  assumes gj: "request_json urlj True = (ej, Some rj, bj)"
    and gt: "request_text urlt False = (et, Some rt, bt)"
    and pj: "request_post urlp content True = (ep, Some rp, bp)"
  shows "((\<exists>b. getJson request_json urlj = Resolved b) \<longleftrightarrow> ej = None \<and> statusCode rj = 200)
       \<and> ((\<exists>b. getText request_text urlt = Resolved b) \<longleftrightarrow> et = None \<and> statusCode rt = 200)
       \<and> ((\<exists>b. postJson request_post urlp content = Resolved b)
            \<longleftrightarrow> ep = None \<and> statusCode rp \<le> 204)
       \<and> getJson request_json urlj =
            (case ej of Some e \<Rightarrow> RejectedError e
             | None \<Rightarrow> if statusCode rj = 200 then Resolved bj
                 else RejectedMessage (''HTTP status code '' @ numberToString (statusCode rj)))
       \<and> getText request_text urlt =
            (case et of Some e \<Rightarrow> RejectedError e
             | None \<Rightarrow> if statusCode rt = 200 then Resolved bt
                 else RejectedMessage (''HTTP status code '' @ numberToString (statusCode rt)))
       \<and> postJson request_post urlp content =
            (case ep of Some e \<Rightarrow> RejectedError e
             | None \<Rightarrow> if statusCode rp \<le> 204 then Resolved bp
                 else RejectedMessage (''HTTP status code '' @ numberToString (statusCode rp)))"
  using assms
  by (auto simp: getJson_def getText_def postJson_def split: option.splits)

theorem http_helpers_resolve_exactly_on_success_witness:
  "getJson demoGet ''missing'' = RejectedMessage ''HTTP status code 404''
   \<and> getText demoGet ''ok'' = Resolved ''body''
   \<and> postJson demoPost ''ok'' ''payload'' = Resolved ''payload''
   \<and> \<not> (\<exists>b. getJson demoGet ''missing'' = Resolved b)
   \<and> (\<exists>b. postJson demoPost ''ok'' ''payload'' = Resolved b)"
proof -
  have j: "demoGet ''missing'' True = (None, Some \<lparr>statusCode = 404\<rparr>, ''nothing here'')"
    by (simp add: demoGet_def)
  have t: "demoGet ''ok'' False = (None, Some \<lparr>statusCode = 200\<rparr>, ''body'')"
    by (simp add: demoGet_def)
  have p: "demoPost ''ok'' ''payload'' True = (None, Some \<lparr>statusCode = 204\<rparr>, ''payload'')"
    by (simp add: demoPost_def)
  show ?thesis
    using http_helpers_resolve_exactly_on_success
      [where request_json = demoGet and urlj = "''missing''"
         and request_text = demoGet and urlt = "''ok''"
         and request_post = demoPost and urlp = "''ok''" and content = "''payload''",
       OF j t p]
    by (simp add: numberToString_404)
qed

text \<open>
  Claim C10. When the callback receives neither a transport error nor a response
  object, each helper resolves with the body it was given: the status-code check is
  not reached.
\<close>

theorem http_helpers_resolve_without_response:
  assumes "request_json urlj True = (None, None, bj)"
    and "request_text urlt False = (None, None, bt)"
    and "request_post urlp content True = (None, None, bp)"
  shows "getJson request_json urlj = Resolved bj
       \<and> getText request_text urlt = Resolved bt
       \<and> postJson request_post urlp content = Resolved bp"
  using assms by (simp add: getJson_def getText_def postJson_def)

theorem http_helpers_resolve_without_response_witness:
  "getJson demoGet ''silent'' = Resolved ''no response object''
   \<and> getText demoGet ''silent'' = Resolved ''no response object''
   \<and> postJson demoPost ''silent'' ''payload'' = Resolved ''no response object''"
proof -
  have j: "demoGet ''silent'' True = (None, None, ''no response object'')"
    by (simp add: demoGet_def)
  have t: "demoGet ''silent'' False = (None, None, ''no response object'')"
    by (simp add: demoGet_def)
  have p: "demoPost ''silent'' ''payload'' True = (None, None, ''no response object'')"
    by (simp add: demoPost_def)
  show ?thesis
    by (rule http_helpers_resolve_without_response
      [where request_json = demoGet and urlj = "''silent''"
         and request_text = demoGet and urlt = "''silent''"
         and request_post = demoPost and urlp = "''silent''" and content = "''payload''",
       OF j t p])
qed

section \<open>Properties of the state log\<close>

lemma scanStateLog_first_match:
  assumes re: "newRegExp h pattern = Inr re"
    and i: "i < length (lineTexts (document ed))"
    and hit: "firstGroupIs (re (lineTexts (document ed) ! i)) oid"
    and le: "lineIdx \<le> i"
    and miss: "\<And>k. lineIdx \<le> k \<Longrightarrow> k < i \<Longrightarrow>
                 \<not> firstGroupIs (re (lineTexts (document ed) ! k)) oid"
    and ed: "stateLogEditor view = Some ed"
  shows "scanStateLog h pattern oid lineIdx view =
     (Fulfilled,
      view\<lparr>stateLogEditor :=
              Some (revealRange (Range i 0 i (length (lineTexts (document ed) ! i))) AtTop
                (ed\<lparr>document := (document ed)\<lparr>lineAtCalls :=
                       lineAtCalls (document ed) @ [lineIdx..<Suc i]\<rparr>\<rparr>)),
            stateLogLineCache := (stateLogLineCache view)(oid \<mapsto> i)\<rparr>)"
  using i hit le miss ed
proof (induction "i - lineIdx" arbitrary: lineIdx view ed)
  case 0
  then have eq: "lineIdx = i" by simp
  show ?case
    using 0(2,3,6) re unfolding eq
    by (subst scanStateLog.simps)
       (simp add: lineCount_def lineAt_def lineAtCalled_def revealRange_def Let_def)
next
  case (Suc d)
  then have lt: "lineIdx < i" by simp
  let ?ed1 = "lineAtCalled lineIdx ed"
  let ?view1 = "view\<lparr>stateLogEditor := Some ?ed1\<rparr>"
  have docl: "lineTexts (document ?ed1) = lineTexts (document ed)"
    by (simp add: lineAtCalled_def)
  have nohit: "\<not> firstGroupIs (re (lineTexts (document ed) ! lineIdx)) oid"
    using Suc.prems(4) [of lineIdx] lt by simp
  have step: "scanStateLog h pattern oid lineIdx view =
      scanStateLog h pattern oid (Suc lineIdx) ?view1"
    using Suc.prems(1,5) lt re nohit
    by (subst scanStateLog.simps) (simp add: lineCount_def lineAt_def Let_def)
  have ih: "scanStateLog h pattern oid (Suc lineIdx) ?view1 =
     (Fulfilled,
      ?view1\<lparr>stateLogEditor :=
              Some (revealRange (Range i 0 i (length (lineTexts (document ?ed1) ! i))) AtTop
                (?ed1\<lparr>document := (document ?ed1)\<lparr>lineAtCalls :=
                       lineAtCalls (document ?ed1) @ [Suc lineIdx..<Suc i]\<rparr>\<rparr>)),
            stateLogLineCache := (stateLogLineCache ?view1)(oid \<mapsto> i)\<rparr>)"
  proof (rule Suc.hyps(1))
    show "d = i - Suc lineIdx" using Suc.hyps(2) by simp
    show "i < length (lineTexts (document ?ed1))" using Suc.prems(1) docl by simp
    show "firstGroupIs (re (lineTexts (document ?ed1) ! i)) oid"
      using Suc.prems(2) docl by simp
    show "Suc lineIdx \<le> i" using lt by simp
    show "\<And>k. Suc lineIdx \<le> k \<Longrightarrow> k < i \<Longrightarrow>
            \<not> firstGroupIs (re (lineTexts (document ?ed1) ! k)) oid"
      using Suc.prems(4) docl by simp
    show "stateLogEditor ?view1 = Some ?ed1" by simp
  qed
  have upt: "[lineIdx..<Suc i] = lineIdx # [Suc lineIdx..<Suc i]"
    using lt by (simp add: upt_conv_Cons)
  show ?case
    unfolding step ih upt
    by (simp add: lineAtCalled_def revealRange_def)
qed

text \<open>
  Claim C2. On a miss of the correlation cache, with a log bound, an event source
  observed and the state known, \<^verbatim>\<open>scrollStateLog\<close> reads the lines of the document in
  increasing order from line 0 (the calls of \<^verbatim>\<open>lineAt\<close> are \<open>0, \<dots>, i\<close>) up to the
  first line \<open>i\<close> whose first capture group is the external id of the state, reveals
  the range of that line at the top, stores \<open>i\<close> for the external id in the cache and
  reads no further line. A later line \<open>j > i\<close> that matches as well is neither read
  nor revealed nor stored. The editor scanned is the bound one, or the one the host
  returns when the document had been closed.
\<close>

theorem scrollStateLog_reveals_first_match:
  assumes bound: "stateLogFile view = Some f"
    and editor: "stateLogEditor view = Some ed0"
    and search: "search view = Some r"
    and known: "getState (resolvers h r) stateId = Some s"
    and reopened: "if isClosed (document ed0)
                   then showTextDocument h (document ed0) = Inr ed else ed = ed0"
    and notCached: "stateLogLineCache view (origId s) = None"
    and re: "newRegExp h (configuredPattern h) = Inr re"
    and i: "i < lineCount (document ed)"
    and hit: "firstGroupIs (re (lineTexts (document ed) ! i)) (origId s)"
    and first: "\<forall>k<i. \<not> firstGroupIs (re (lineTexts (document ed) ! k)) (origId s)"
  shows "scrollStateLog h stateId view =
     (Fulfilled,
      view\<lparr>stateLogEditor :=
              Some (revealRange (Range i 0 i (length (lineTexts (document ed) ! i))) AtTop
                (ed\<lparr>document := (document ed)\<lparr>lineAtCalls :=
                       lineAtCalls (document ed) @ [0..<Suc i]\<rparr>\<rparr>)),
            stateLogLineCache := (stateLogLineCache view)(origId s \<mapsto> i)\<rparr>)"
proof -
  let ?view1 = "view\<lparr>stateLogEditor := Some ed\<rparr>"
  have scan: "scanStateLog h (configuredPattern h) (origId s) 0 ?view1 =
     (Fulfilled,
      ?view1\<lparr>stateLogEditor :=
              Some (revealRange (Range i 0 i (length (lineTexts (document ed) ! i))) AtTop
                (ed\<lparr>document := (document ed)\<lparr>lineAtCalls :=
                       lineAtCalls (document ed) @ [0..<Suc i]\<rparr>\<rparr>)),
            stateLogLineCache := (stateLogLineCache ?view1)(origId s \<mapsto> i)\<rparr>)"
    using i first
    by (intro scanStateLog_first_match [OF re _ hit]) (simp_all add: lineCount_def)
  show ?thesis
  proof (cases "isClosed (document ed0)")
    case True
    with reopened have "showTextDocument h (document ed0) = Inr ed" by simp
    then show ?thesis
      using bound editor search known notCached True scan
      by (simp add: scrollStateLog_def)
  next
    case False
    with reopened have e: "ed = ed0" by simp
    have v: "?view1 = view" using editor e by simp
    show ?thesis
      using bound editor search known notCached False scan unfolding v
      by (simp add: scrollStateLog_def e)
  qed
qed

theorem scrollStateLog_reveals_first_match_witness:
  "stateLogLineCache (snd (scrollStateLog demoHost (Some 1) (demoView True repeatedLog))) ''42''
     = Some 3
   \<and> map_option revealRangeCalls
        (stateLogEditor (snd (scrollStateLog demoHost (Some 1) (demoView True repeatedLog))))
       = Some [(Range 3 0 3 14, AtTop)]
   \<and> map_option (lineAtCalls \<circ> document)
        (stateLogEditor (snd (scrollStateLog demoHost (Some 1) (demoView True repeatedLog))))
       = Some [0, 1, 2, 3]"
proof -
  let ?ed = "demoEditor repeatedLog"
  let ?s = "\<lparr>id_State = 1, origId = ''42''\<rparr>"
  have bound: "stateLogFile (demoView True repeatedLog) = Some \<lparr>fsPath = ''planner.log''\<rparr>"
    by (simp add: demoView_def newView_def)
  have editor: "stateLogEditor (demoView True repeatedLog) = Some ?ed"
    by (simp add: demoView_def newView_def)
  have search: "search (demoView True repeatedLog) = Some 0"
    by (simp add: demoView_def newView_def)
  have known: "getState (resolvers demoHost 0) (Some 1) = Some ?s"
    by (simp add: demoHost_def demoResolver_def demoStates_def)
  have reopened:
    "if isClosed (document ?ed) then showTextDocument demoHost (document ?ed) = Inr ?ed
     else ?ed = ?ed"
    by (simp add: demoEditor_def demoDocument_def)
  have notCached: "stateLogLineCache (demoView True repeatedLog) (origId ?s) = None"
    by (simp add: demoView_def newView_def)
  have re: "newRegExp demoHost (configuredPattern demoHost) = Inr demoMatch"
    by (simp add: demoHost_def configuredPattern_def demoNewRegExp_def)
  have i: "3 < lineCount (document ?ed)"
    by (simp add: lineCount_def demoEditor_def demoDocument_def repeatedLog_def)
  have hit: "firstGroupIs (demoMatch (lineTexts (document ?ed) ! 3)) (origId ?s)"
    by (simp add: demoEditor_def demoDocument_def repeatedLog_def demoMatch_def
        firstGroupIs_def)
  have first: "\<forall>k<3. \<not> firstGroupIs (demoMatch (lineTexts (document ?ed) ! k)) (origId ?s)"
    by (simp add: demoEditor_def demoDocument_def repeatedLog_def demoMatch_def
        firstGroupIs_def less_Suc_eq numeral_3_eq_3)
  have upt: "[0..<4] = [0, 1, 2, 3::nat]"
    by code_simp
  show ?thesis
    using scrollStateLog_reveals_first_match
      [OF bound editor search known reopened notCached re i hit first]
    by (simp add: revealRange_def demoEditor_def demoDocument_def repeatedLog_def upt)
qed

text \<open>
  The cache hit: the document is not read, and the cached line is revealed unless it is
  line 0, for which the test \<^verbatim>\<open>if (cachedLineId)\<close> fails.
\<close>

lemma scrollStateLog_cache_hit:
  assumes bound: "stateLogFile view = Some f"
    and editor: "stateLogEditor view = Some ed"
    and search: "search view = Some r"
    and known: "getState (resolvers h r) stateId = Some s"
    and opened: "\<not> isClosed (document ed)"
    and cached: "stateLogLineCache view (origId s) = Some n"
  shows "scrollStateLog h stateId view =
     (Fulfilled,
      if n \<noteq> 0
      then view\<lparr>stateLogEditor := Some (revealRange (Range n 0 (n + 1) 0) AtTop ed)\<rparr>
      else view)"
  using assms by (simp add: scrollStateLog_def)

text \<open>
  Claim C1, at the input where the code departs from it. The log names state 42 on
  line 0. The first scroll request reveals line 0 and caches it. The second request for
  the same state finds the cached index 0, reads no line, and reveals nothing: the
  editor has still been asked to reveal once.
\<close>

theorem scrollStateLog_cached_line_zero_not_revealed:
  "stateLogLineCache (snd (scrollStateLog demoHost (Some 1) (demoView True zeroLog))) ''42''
     = Some 0
   \<and> map_option revealRangeCalls
        (stateLogEditor (snd (scrollStateLog demoHost (Some 1) (demoView True zeroLog))))
       = Some [(Range 0 0 0 14, AtTop)]
   \<and> map_option revealRangeCalls
        (stateLogEditor (snd (scrollStateLog demoHost (Some 1)
           (snd (scrollStateLog demoHost (Some 1) (demoView True zeroLog))))))
       = Some [(Range 0 0 0 14, AtTop)]
   \<and> map_option (lineAtCalls \<circ> document)
        (stateLogEditor (snd (scrollStateLog demoHost (Some 1)
           (snd (scrollStateLog demoHost (Some 1) (demoView True zeroLog))))))
       = Some [0]"
  by code_simp

text \<open>
  Claim C4, at an input where the code departs from it. With a log file bound,
  \<^verbatim>\<open>toggleStateLog\<close> posts the command stateLog with state null and leaves the file
  bound; a second toggle therefore takes the same branch again.
\<close>

theorem toggleStateLog_keeps_log_bound:
  "stateLogFile (snd (toggleStateLog demoHost (demoView True zeroLog)))
     = Some \<lparr>fsPath = ''planner.log''\<rparr>
   \<and> stateLogEditor (snd (toggleStateLog demoHost (demoView True zeroLog)))
     = Some (demoEditor zeroLog)
   \<and> map_option posted (webViewPanel (snd (toggleStateLog demoHost (demoView True zeroLog))))
     = Some [\<lparr>command = ''stateLog'', state = PNull\<rparr>]
   \<and> map_option posted (webViewPanel (snd (toggleStateLog demoHost
        (snd (toggleStateLog demoHost (demoView True zeroLog))))))
     = Some [\<lparr>command = ''stateLog'', state = PNull\<rparr>,
             \<lparr>command = ''stateLog'', state = PNull\<rparr>]"
  by code_simp

lemma toggleStateLog_bound:
  assumes "stateLogFile view = Some f"
  shows "toggleStateLog h view =
           (Fulfilled, postMessage \<lparr>command = ''stateLog'', state = PNull\<rparr> view)"
    and "stateLogFile (snd (toggleStateLog h view)) = Some f"
    and "stateLogEditor (snd (toggleStateLog h view)) = stateLogEditor view"
  using assms
  by (simp_all add: toggleStateLog_def postMessage_def Let_def split: option.splits)

text \<open>
  Claim C5, as amended. \<^verbatim>\<open>clear()\<close> empties the correlation cache and forgets the
  domain and the problem; it leaves the log file and the log editor bound as they were.
\<close>

theorem clear_empties_cache_keeps_log_binding:
  "stateLogLineCache (clear view) = Map.empty
   \<and> domain (clear view) = None
   \<and> problem (clear view) = None
   \<and> stateLogFile (clear view) = stateLogFile view
   \<and> stateLogEditor (clear view) = stateLogEditor view"
  by (simp add: clear_def postMessage_def Let_def split: option.splits)

text \<open>
  Claim C5 as stated fails: after \<^verbatim>\<open>clear()\<close> on a view with a log bound, the log file
  and the log editor are still bound.
\<close>

theorem clear_leaves_log_bound:
  "\<not> (stateLogFile (clear (demoView True zeroLog)) = None
      \<and> stateLogEditor (clear (demoView True zeroLog)) = None)"
  by (simp add: clear_def postMessage_def Let_def demoView_def newView_def demoPanel_def)

section \<open>Properties of the visibility gate\<close>

text \<open>
  Claim C3. When the panel of the view reports that it is visible,
  \<^verbatim>\<open>changedViewState\<close> first posts the debugger status (on or off, and the port); then,
  if the pending flag is set, it posts showAllStates with the states the observed event
  source returns at that moment (none when no source is observed); and the pending flag
  is false afterwards. Nothing else of the view changes.
\<close>

theorem changedViewState_resends_when_pending:
  assumes panel: "webViewPanel view = Some p"
    and vis: "visible p"
  shows "changedViewState h p view =
     view\<lparr>webViewPanel := Some (p\<lparr>posted := posted p
              @ [\<lparr>command = ''debuggerState'',
                   state = PStatus (if debuggerState view = Some True then ''on'' else ''off'')
                             (port view)\<rparr>]
              @ (if stateChangedWhileViewHidden view
                 then [\<lparr>command = ''showAllStates'',
                         state = PStates (case search view of
                                            None \<Rightarrow> []
                                          | Some r \<Rightarrow> getStates (resolvers h r))\<rparr>]
                 else [])\<rparr>),
          stateChangedWhileViewHidden := False\<rparr>
     \<and> \<not> stateChangedWhileViewHidden (changedViewState h p view)"
  using assms
  by (simp add: changedViewState_def showDebuggerState_def debuggerStateMessage_def
      showAllStates_def allStates_def postMessage_def Let_def)

theorem changedViewState_resends_when_pending_witness:
  "stateChangedWhileViewHidden hiddenThenShown
   \<and> map_option posted (webViewPanel (changedViewState laterHost shownPanel hiddenThenShown))
     = Some [\<lparr>command = ''stateAdded'', state = PState \<lparr>id_State = 1, origId = ''42''\<rparr>\<rparr>,
             \<lparr>command = ''stateAdded'', state = PState \<lparr>id_State = 2, origId = ''7''\<rparr>\<rparr>,
             \<lparr>command = ''debuggerState'', state = PStatus ''off'' None\<rparr>,
             \<lparr>command = ''showAllStates'', state = PStates (\<lparr>id_State = 3, origId = ''9''\<rparr> # demoStates)\<rparr>]
   \<and> \<not> stateChangedWhileViewHidden (changedViewState laterHost shownPanel hiddenThenShown)"
proof -
  have panel: "webViewPanel hiddenThenShown = Some shownPanel"
    by (simp add: hiddenThenShown_def shownPanel_def panelShown_def addState_def postMessage_def
        demoView_def newView_def demoPanel_def Let_def)
  have vis: "visible shownPanel"
    by (simp add: shownPanel_def)
  have flag: "stateChangedWhileViewHidden hiddenThenShown"
    by (simp add: hiddenThenShown_def panelShown_def addState_def postMessage_def
        demoView_def newView_def demoPanel_def Let_def)
  have src: "search hiddenThenShown = Some 0" "debuggerState hiddenThenShown = None"
    "port hiddenThenShown = None"
    by (simp_all add: hiddenThenShown_def panelShown_def addState_def postMessage_def
        demoView_def newView_def demoPanel_def Let_def)
  show ?thesis
    using changedViewState_resends_when_pending [OF panel vis, of laterHost] flag src
    by (simp add: shownPanel_def laterHost_def demoHost_def demoResolver_def)
qed


section \<open>Properties of the pending flag\<close>

lemma sent_frame:
  assumes "webViewPanel view' = webViewPanel view"
    and "stateChangedWhileViewHidden view' \<Longrightarrow> stateChangedWhileViewHidden view"
  shows "sent view view'"
  unfolding sent_def using assms
  by (intro exI [of _ "[]"]) (cases "webViewPanel view"; auto)

lemma sent_refl: "sent view view"
  by (rule sent_frame) simp_all

lemma sent_trans:
  assumes "sent a b" and "sent b c"
  shows "sent a c"
proof -
  from assms(1) obtain ms1 where
    p1: "webViewPanel b = map_option (\<lambda>p. p\<lparr>posted := posted p @ ms1\<rparr>) (webViewPanel a)"
    and f1: "stateChangedWhileViewHidden b \<and> \<not> stateChangedWhileViewHidden a
             \<longrightarrow> ms1 \<noteq> [] \<and> (\<exists>p. webViewPanel a = Some p \<and> \<not> visible p)"
    unfolding sent_def by blast
  from assms(2) obtain ms2 where
    p2: "webViewPanel c = map_option (\<lambda>p. p\<lparr>posted := posted p @ ms2\<rparr>) (webViewPanel b)"
    and f2: "stateChangedWhileViewHidden c \<and> \<not> stateChangedWhileViewHidden b
             \<longrightarrow> ms2 \<noteq> [] \<and> (\<exists>p. webViewPanel b = Some p \<and> \<not> visible p)"
    unfolding sent_def by blast
  have p: "webViewPanel c = map_option (\<lambda>p. p\<lparr>posted := posted p @ (ms1 @ ms2)\<rparr>) (webViewPanel a)"
    unfolding p2 p1 by (cases "webViewPanel a") simp_all
  have f: "stateChangedWhileViewHidden c \<and> \<not> stateChangedWhileViewHidden a
             \<longrightarrow> ms1 @ ms2 \<noteq> [] \<and> (\<exists>p. webViewPanel a = Some p \<and> \<not> visible p)"
    using f1 f2 p1 by (cases "webViewPanel a") auto
  show ?thesis
    unfolding sent_def using p f by blast
qed

lemma sent_then_frame:
  assumes "sent view view'"
    and "webViewPanel view'' = webViewPanel view'"
    and "stateChangedWhileViewHidden view'' \<Longrightarrow> stateChangedWhileViewHidden view'"
  shows "sent view view''"
  using assms(1) sent_frame [OF assms(2,3)] by (rule sent_trans)

lemma sent_postMessage: "sent view (postMessage message view)"
  unfolding sent_def postMessage_def
  by (intro exI [of _ "[message]"]) (cases "webViewPanel view"; simp add: Let_def)

lemma sent_showDebuggerState: "sent view (showDebuggerState view)"
  by (simp add: showDebuggerState_def sent_postMessage)

lemma sent_setDebuggerState: "sent view (setDebuggerState on p view)"
  unfolding setDebuggerState_def
  by (rule sent_trans [OF sent_frame sent_showDebuggerState]) simp_all

lemma sent_showAllStates: "sent view (showAllStates h view)"
  by (simp add: showAllStates_def sent_postMessage)

lemma sent_changedViewState: "sent view (changedViewState h panel view)"
proof -
  let ?v1 = "showDebuggerState view"
  let ?v2 = "if stateChangedWhileViewHidden ?v1 then showAllStates h ?v1 else ?v1"
  have "sent view ?v2"
    using sent_trans [OF sent_showDebuggerState sent_showAllStates] sent_showDebuggerState
    by simp
  then have "sent view (?v2\<lparr>stateChangedWhileViewHidden := False\<rparr>)"
    by (rule sent_then_frame) simp_all
  then show ?thesis
    by (simp add: changedViewState_def Let_def sent_refl)
qed

lemma sent_clear: "sent view (clear view)"
  unfolding clear_def by (rule sent_then_frame [OF sent_postMessage]) simp_all

lemma sent_showStatePlan: "sent view (snd (showStatePlan h i view))"
  by (simp add: showStatePlan_def sent_refl sent_postMessage split: option.splits sum.splits)

lemma sent_toggleStateLog: "sent view (snd (toggleStateLog h view))"
proof -
  have "sent view (postMessage m (view\<lparr>stateLogFile := a, stateLogEditor := b\<rparr>))" for m a b
    by (rule sent_trans [OF sent_frame sent_postMessage]) simp_all
  then show ?thesis
    by (auto simp: toggleStateLog_def Let_def sent_refl sent_postMessage
        intro: sent_frame split: option.splits sum.splits list.splits)
qed

lemma scanStateLog_frame:
  "webViewPanel (snd (scanStateLog h pattern oid lineIdx view)) = webViewPanel view
   \<and> stateChangedWhileViewHidden (snd (scanStateLog h pattern oid lineIdx view))
       = stateChangedWhileViewHidden view"
proof (induction h pattern oid lineIdx view rule: scanStateLog.induct)
  case (1 h pattern oid lineIdx view)
  show ?case
    by (subst (1 2) scanStateLog.simps)
       (use 1 in \<open>auto simp: Let_def split: option.splits sum.splits\<close>)
qed

lemma sent_scrollStateLog: "sent view (snd (scrollStateLog h i view))"
  by (rule sent_frame)
     (auto simp: scrollStateLog_def scanStateLog_frame split: option.splits sum.splits if_splits)


lemma sent_showStatePlan_eq: "showStatePlan h i view = (p, view') \<Longrightarrow> sent view view'"
  using sent_showStatePlan [of view h i] by simp

lemma sent_scrollStateLog_eq: "scrollStateLog h i view = (p, view') \<Longrightarrow> sent view view'"
  using sent_scrollStateLog [of view h i] by simp

lemma sent_toggleStateLog_eq: "toggleStateLog h view = (p, view') \<Longrightarrow> sent view view'"
  using sent_toggleStateLog [of view h] by simp

lemma sent_handleMessage: "sent view (fst (handleMessage m view h))"
proof -
  have start: "sent view (view\<lparr>stateLogLineCache := Map.empty\<rparr>)"
    by (rule sent_frame) simp_all
  show ?thesis
    by (auto simp: handleMessage_def sent_showDebuggerState sent_refl start Let_def
        split: prod.splits option.splits
        intro: sent_trans [OF sent_showStatePlan_eq sent_scrollStateLog_eq]
          sent_toggleStateLog_eq)
qed

lemma sent_observe: "sent view (fst (observe r view h))"
  by (rule sent_frame) (simp_all add: observe_def Let_def split: prod.splits)

lemma sent_displayBetterState: "sent view (fst (displayBetterState s view h))"
  by (auto simp: displayBetterState_def split: prod.splits intro: sent_showStatePlan_eq)

lemma sent_deliver: "sent view (fst (deliver ev l (view, h)))"
  by (cases ev; cases l)
     (simp_all add: sent_refl addState_def update_def displayPlan_def sent_postMessage
        sent_displayBetterState)

lemma sent_fold_deliver: "sent (fst w) (fst (fold (deliver ev) ls w))"
proof (induction ls arbitrary: w)
  case Nil
  then show ?case by (simp add: sent_refl)
next
  case (Cons l ls)
  obtain view h where w: "w = (view, h)" by (cases w)
  have "sent (fst w) (fst (deliver ev l w))"
    unfolding w using sent_deliver by simp
  then show ?case
    using Cons.IH [of "deliver ev l w"] by (auto intro: sent_trans)
qed

lemma sent_fire: "sent view (fst (fire r ev (view, h)))"
  using sent_fold_deliver [of "(view, h)"] by (simp add: fire_def)

lemma flag_createDebugView:
  "stateChangedWhileViewHidden (snd (createDebugView h t view)) = stateChangedWhileViewHidden view"
  by (simp add: createDebugView_def Let_def split: sum.splits)

lemma flag_showDebugView:
  "stateChangedWhileViewHidden (snd (showDebugView h view)) = stateChangedWhileViewHidden view"
  by (simp add: showDebugView_def flag_createDebugView split: option.splits)

lemma sent_perform:
  "sent view (fst (perform a (view, h)))
   \<or> stateChangedWhileViewHidden (fst (perform a (view, h))) = stateChangedWhileViewHidden view"
proof (cases a)
  case (HandleMessage m)
  then show ?thesis using sent_handleMessage by simp
next
  case (Fire r ev)
  then show ?thesis using sent_fire by simp
next
  case (Observe r)
  then show ?thesis using sent_observe by simp
next
  case (DisplayBetterStateCall s)
  then show ?thesis using sent_displayBetterState by simp
next
  case (ShowStatePlan i)
  then show ?thesis by (auto split: prod.splits intro: sent_showStatePlan_eq)
next
  case ToggleStateLog
  then show ?thesis by (auto split: prod.splits intro: sent_toggleStateLog_eq)
next
  case (ScrollStateLog i)
  then show ?thesis by (auto split: prod.splits intro: sent_scrollStateLog_eq)
next
  case ShowDebugView
  then show ?thesis using flag_showDebugView [of h view] by (auto split: prod.splits)
next
  case (CreateDebugView t)
  then show ?thesis using flag_createDebugView [of h t view] by (auto split: prod.splits)
qed (simp_all add: sent_refl sent_postMessage sent_changedViewState sent_setDebuggerState
      sent_showAllStates sent_clear addState_def update_def displayPlan_def
      planimationResponse_def setDomainAndProblem_def panelDisposed_def)

text \<open>
  Claim C9. Without a panel \<^verbatim>\<open>postMessage\<close> returns the view unchanged: nothing is
  posted and no field changes, the pending flag included. If \<^verbatim>\<open>postMessage\<close> raises
  the pending flag, then a panel exists, is not visible, and has been handed the
  message. The same holds of every entry point of the class: if the flag is raised
  while one runs, the panel existed, was hidden, and at least one message was posted
  to it.
\<close>

theorem pending_flag_set_only_by_hidden_send:
  "(webViewPanel view = None \<longrightarrow> postMessage message view = view)
   \<and> (stateChangedWhileViewHidden (postMessage message view)
        \<and> \<not> stateChangedWhileViewHidden view \<longrightarrow>
      (\<exists>p. webViewPanel view = Some p \<and> \<not> visible p
         \<and> webViewPanel (postMessage message view) = Some (p\<lparr>posted := posted p @ [message]\<rparr>)))
   \<and> (stateChangedWhileViewHidden (fst (perform a (view, h)))
        \<and> \<not> stateChangedWhileViewHidden view \<longrightarrow>
      (\<exists>p ms. webViewPanel view = Some p \<and> \<not> visible p \<and> ms \<noteq> []
         \<and> webViewPanel (fst (perform a (view, h))) = Some (p\<lparr>posted := posted p @ ms\<rparr>)))"
proof (intro conjI impI)
  assume "webViewPanel view = None"
  then show "postMessage message view = view" by (simp add: postMessage_def)
next
  assume "stateChangedWhileViewHidden (postMessage message view) \<and> \<not> stateChangedWhileViewHidden view"
  then show "\<exists>p. webViewPanel view = Some p \<and> \<not> visible p
         \<and> webViewPanel (postMessage message view) = Some (p\<lparr>posted := posted p @ [message]\<rparr>)"
    by (cases "webViewPanel view") (auto simp: postMessage_def Let_def split: if_splits)
next
  assume flag: "stateChangedWhileViewHidden (fst (perform a (view, h))) \<and> \<not> stateChangedWhileViewHidden view"
  with sent_perform [of view a h] have "sent view (fst (perform a (view, h)))" by auto
  with flag show "\<exists>p ms. webViewPanel view = Some p \<and> \<not> visible p \<and> ms \<noteq> []
         \<and> webViewPanel (fst (perform a (view, h))) = Some (p\<lparr>posted := posted p @ ms\<rparr>)"
    unfolding sent_def by auto
qed


theorem pending_flag_set_only_by_hidden_send_witness:
  "postMessage \<lparr>command = ''clear'', state = PText ''n/a''\<rparr> newView = newView
   \<and> stateChangedWhileViewHidden
        (postMessage \<lparr>command = ''clear'', state = PText ''n/a''\<rparr> (demoView False zeroLog))
   \<and> \<not> stateChangedWhileViewHidden (demoView False zeroLog)
   \<and> webViewPanel
        (postMessage \<lparr>command = ''clear'', state = PText ''n/a''\<rparr> (demoView False zeroLog))
      = Some ((demoPanel False)\<lparr>posted := [\<lparr>command = ''clear'', state = PText ''n/a''\<rparr>]\<rparr>)
   \<and> stateChangedWhileViewHidden
        (fst (perform (AddStateCall \<lparr>id_State = 1, origId = ''42''\<rparr>)
               (demoView False zeroLog, demoHost)))"
proof -
  have none: "webViewPanel newView = None"
    by (simp add: newView_def)
  have low: "\<not> stateChangedWhileViewHidden (demoView False zeroLog)"
    by (simp add: demoView_def newView_def)
  have raised: "stateChangedWhileViewHidden
      (postMessage \<lparr>command = ''clear'', state = PText ''n/a''\<rparr> (demoView False zeroLog))"
    by (simp add: postMessage_def demoView_def newView_def demoPanel_def Let_def)
  have raised': "stateChangedWhileViewHidden
      (fst (perform (AddStateCall \<lparr>id_State = 1, origId = ''42''\<rparr>)
             (demoView False zeroLog, demoHost)))"
    by (simp add: addState_def postMessage_def demoView_def newView_def demoPanel_def Let_def)
  have panel: "webViewPanel (demoView False zeroLog) = Some (demoPanel False)"
    by (simp add: demoView_def newView_def)
  show ?thesis
    using pending_flag_set_only_by_hidden_send
        [of newView "\<lparr>command = ''clear'', state = PText ''n/a''\<rparr>"
            "AddStateCall \<lparr>id_State = 1, origId = ''42''\<rparr>" demoHost]
      pending_flag_set_only_by_hidden_send
        [of "demoView False zeroLog" "\<lparr>command = ''clear'', state = PText ''n/a''\<rparr>"
            "AddStateCall \<lparr>id_State = 1, origId = ''42''\<rparr>" demoHost]
      none low raised raised' panel
    by (simp add: demoPanel_def)
qed

section \<open>Properties of the subscriptions\<close>

lemma fold_dispose:
  "fold dispose ds h = h\<lparr>listeners := filter (\<lambda>r. Disposable (fst r) \<notin> set ds) (listeners h)\<rparr>"
proof (induction ds arbitrary: h)
  case Nil
  then show ?case by simp
next
  case (Cons d ds)
  obtain n where d: "d = Disposable n" by (cases d)
  have "filter (\<lambda>r. Disposable (fst r) \<notin> set ds) (filter (\<lambda>r. fst r \<noteq> n) (listeners h))
      = filter (\<lambda>r. Disposable (fst r) \<notin> set (d # ds)) (listeners h)"
    unfolding d by (induction "listeners h") (auto intro: filter_cong)
  then show ?case
    by (simp add: Cons.IH d)
qed

lemma observe_eq:
  "observe s view h =
     (view\<lparr>search := Some s,
           subscriptions := [Disposable (nextHandle h), Disposable (nextHandle h + 1),
                             Disposable (nextHandle h + 2), Disposable (nextHandle h + 3)]\<rparr>,
      h\<lparr>listeners := filter (\<lambda>r. Disposable (fst r) \<notin> set (subscriptions view)) (listeners h)
           @ [(nextHandle h, s, StateAdded, AddState),
              (nextHandle h + 1, s, StateUpdated, Update),
              (nextHandle h + 2, s, BetterState, DisplayBetterState),
              (nextHandle h + 3, s, PlanFound, DisplayPlan)],
        nextHandle := nextHandle h + 4\<rparr>)"
  by (simp add: observe_def subscribe_def fold_dispose Let_def)

text \<open>
  The two conditions on the registrations hold when nothing is registered, and
  \<^verbatim>\<open>observe\<close> keeps them.
\<close>

lemma observe_keeps_registrations_wellformed:
  assumes fresh: "\<forall>r \<in> set (listeners h). fst r < nextHandle h"
    and owned: "\<forall>r \<in> set (listeners h).
                  ownListener (snd (snd (snd r))) \<longrightarrow> Disposable (fst r) \<in> set (subscriptions view)"
    and obs: "observe s view h = (view', h')"
  shows "(\<forall>r \<in> set (listeners h'). fst r < nextHandle h')
       \<and> (\<forall>r \<in> set (listeners h').
             ownListener (snd (snd (snd r))) \<longrightarrow> Disposable (fst r) \<in> set (subscriptions view'))"
proof -
  have v: "subscriptions view' =
      [Disposable (nextHandle h), Disposable (nextHandle h + 1),
       Disposable (nextHandle h + 2), Disposable (nextHandle h + 3)]"
    and l: "listeners h' =
      filter (\<lambda>r. Disposable (fst r) \<notin> set (subscriptions view)) (listeners h)
      @ [(nextHandle h, s, StateAdded, AddState), (nextHandle h + 1, s, StateUpdated, Update),
         (nextHandle h + 2, s, BetterState, DisplayBetterState),
         (nextHandle h + 3, s, PlanFound, DisplayPlan)]"
    and n: "nextHandle h' = nextHandle h + 4"
    using obs unfolding observe_eq by auto
  show ?thesis
    unfolding v l n using fresh owned by fastforce
qed

lemma fold_deliver_foreign:
  "\<forall>l \<in> set ls. \<not> ownListener l \<Longrightarrow> fold (deliver ev) ls w = w"
proof (induction ls)
  case Nil
  then show ?case by simp
next
  case (Cons l ls)
  then obtain n where l: "l = Foreign n" by (cases l) auto
  obtain view h where w: "w = (view, h)" by (cases w)
  have "deliver ev (Foreign n) (view, h) = (view, h)" by (cases ev) simp_all
  with Cons l w show ?case by simp
qed


text \<open>
  Claim C6. Let the handles of the registered listeners be below the next handle to be
  given out, and let every registration of a listener of the view be held in its
  \<open>subscriptions\<close>. After \<^verbatim>\<open>observe\<close> of a source \<open>s1\<close> the registrations are the
  ones not held by the view, followed by four for \<open>s1\<close>, one per event kind. A second
  \<^verbatim>\<open>observe\<close>, of a different source \<open>s2\<close>, removes those four and registers four for
  \<open>s2\<close>, which the view then holds. From then on an event fired by \<open>s1\<close> leaves the
  view and the host as they are, and an event of each of the four kinds fired by \<open>s2\<close>
  reaches the method of the view for that kind, once.
\<close>

theorem observe_replaces_subscriptions:
  assumes fresh: "\<forall>r \<in> set (listeners h). fst r < nextHandle h"
    and owned: "\<forall>r \<in> set (listeners h).
                  ownListener (snd (snd (snd r))) \<longrightarrow> Disposable (fst r) \<in> set (subscriptions view)"
    and first: "observe s1 view h = (view1, h1)"
    and second: "observe s2 view1 h1 = (view2, h2)"
    and diff: "s1 \<noteq> s2"
  shows "listeners h1 =
           filter (\<lambda>r. Disposable (fst r) \<notin> set (subscriptions view)) (listeners h)
           @ [(nextHandle h, s1, StateAdded, AddState),
              (nextHandle h + 1, s1, StateUpdated, Update),
              (nextHandle h + 2, s1, BetterState, DisplayBetterState),
              (nextHandle h + 3, s1, PlanFound, DisplayPlan)]
       \<and> listeners h2 =
           filter (\<lambda>r. Disposable (fst r) \<notin> set (subscriptions view)) (listeners h)
           @ [(nextHandle h + 4, s2, StateAdded, AddState),
              (nextHandle h + 5, s2, StateUpdated, Update),
              (nextHandle h + 6, s2, BetterState, DisplayBetterState),
              (nextHandle h + 7, s2, PlanFound, DisplayPlan)]
       \<and> search view2 = Some s2
       \<and> subscriptions view2 =
           [Disposable (nextHandle h + 4), Disposable (nextHandle h + 5),
            Disposable (nextHandle h + 6), Disposable (nextHandle h + 7)]
       \<and> (\<forall>ev. fire s1 ev (view2, h2) = (view2, h2))
       \<and> (\<forall>x. fire s2 (StateAddedEvent x) (view2, h2) = (addState x view2, h2))
       \<and> (\<forall>x. fire s2 (StateUpdatedEvent x) (view2, h2) = (update x view2, h2))
       \<and> (\<forall>x. fire s2 (BetterStateEvent x) (view2, h2) = displayBetterState x view2 h2)
       \<and> (\<forall>xs. fire s2 (PlanFoundEvent xs) (view2, h2) = (displayPlan xs view2, h2))"
proof -
  let ?n = "nextHandle h"
  let ?b = "filter (\<lambda>r. Disposable (fst r) \<notin> set (subscriptions view)) (listeners h)"
  have v1: "subscriptions view1 = [Disposable ?n, Disposable (?n + 1), Disposable (?n + 2), Disposable (?n + 3)]"
    and l1: "listeners h1 = ?b @ [(?n, s1, StateAdded, AddState), (?n + 1, s1, StateUpdated, Update),
              (?n + 2, s1, BetterState, DisplayBetterState), (?n + 3, s1, PlanFound, DisplayPlan)]"
    and n1: "nextHandle h1 = ?n + 4"
    using first unfolding observe_eq by auto
  have keep: "filter (\<lambda>r. Disposable (fst r) \<notin> set (subscriptions view1)) ?b = ?b"
    unfolding v1 filter_id_conv using fresh by fastforce
  have l2: "listeners h2 = ?b @ [(?n + 4, s2, StateAdded, AddState), (?n + 5, s2, StateUpdated, Update),
              (?n + 6, s2, BetterState, DisplayBetterState), (?n + 7, s2, PlanFound, DisplayPlan)]"
    and v2: "subscriptions view2 = [Disposable (?n + 4), Disposable (?n + 5), Disposable (?n + 6), Disposable (?n + 7)]"
    and s2: "search view2 = Some s2"
    using second keep unfolding observe_eq l1 n1 by (auto simp: v1)
  have foreign: "\<forall>l \<in> set (listenersOf (h2\<lparr>listeners := ?b\<rparr>) s k). \<not> ownListener l" for s k
    using owned by (auto simp: listenersOf_def)
  have split: "listenersOf h2 s k = listenersOf (h2\<lparr>listeners := ?b\<rparr>) s k
      @ listenersOf (h2\<lparr>listeners := [(?n + 4, s2, StateAdded, AddState), (?n + 5, s2, StateUpdated, Update),
              (?n + 6, s2, BetterState, DisplayBetterState), (?n + 7, s2, PlanFound, DisplayPlan)]\<rparr>) s k" for s k
    using l2 by (simp add: listenersOf_def)
  have fire_eq: "fire s ev (view2, h2) =
      fold (deliver ev)
        (listenersOf (h2\<lparr>listeners := [(?n + 4, s2, StateAdded, AddState), (?n + 5, s2, StateUpdated, Update),
              (?n + 6, s2, BetterState, DisplayBetterState), (?n + 7, s2, PlanFound, DisplayPlan)]\<rparr>) s (kindOf ev))
        (view2, h2)" for s ev
    unfolding fire_def snd_conv split fold_append comp_def
    by (simp only: fold_deliver_foreign [OF foreign])
  have none: "fire s1 ev (view2, h2) = (view2, h2)" for ev
    using diff by (simp add: fire_eq listenersOf_def)
  have added: "fire s2 (StateAddedEvent x) (view2, h2) = (addState x view2, h2)" for x
    by (simp add: fire_eq listenersOf_def)
  have updated: "fire s2 (StateUpdatedEvent x) (view2, h2) = (update x view2, h2)" for x
    by (simp add: fire_eq listenersOf_def)
  have better: "fire s2 (BetterStateEvent x) (view2, h2) = displayBetterState x view2 h2" for x
    by (simp add: fire_eq listenersOf_def)
  have plan: "fire s2 (PlanFoundEvent xs) (view2, h2) = (displayPlan xs view2, h2)" for xs
    by (simp add: fire_eq listenersOf_def)
  show ?thesis
    using l1 l2 s2 v2 none added updated better plan by simp
qed


theorem observe_replaces_subscriptions_witness:
  "listeners (snd twiceObserved) =
     [(0, 1, StateAdded, Foreign 9),
      (5, 2, StateAdded, AddState), (6, 2, StateUpdated, Update),
      (7, 2, BetterState, DisplayBetterState), (8, 2, PlanFound, DisplayPlan)]
   \<and> subscriptions (fst twiceObserved) =
       [Disposable 5, Disposable 6, Disposable 7, Disposable 8]
   \<and> fire 1 (StateAddedEvent \<lparr>id_State = 1, origId = ''42''\<rparr>) twiceObserved = twiceObserved
   \<and> fire 2 (StateAddedEvent \<lparr>id_State = 1, origId = ''42''\<rparr>) twiceObserved
       = (addState \<lparr>id_State = 1, origId = ''42''\<rparr> (fst twiceObserved), snd twiceObserved)"
proof -
  have fresh: "\<forall>r \<in> set (listeners sharedHost). fst r < nextHandle sharedHost"
    by (simp add: sharedHost_def demoHost_def)
  have owned: "\<forall>r \<in> set (listeners sharedHost).
      ownListener (snd (snd (snd r))) \<longrightarrow> Disposable (fst r) \<in> set (subscriptions newView)"
    by (simp add: sharedHost_def demoHost_def)
  have first: "observe 1 newView sharedHost =
      (fst (observe 1 newView sharedHost), snd (observe 1 newView sharedHost))"
    by simp
  have second: "observe 2 (fst (observe 1 newView sharedHost)) (snd (observe 1 newView sharedHost))
      = (fst twiceObserved, snd twiceObserved)"
    by (simp add: twiceObserved_def)
  have diff: "(1::nat) \<noteq> 2"
    by simp
  have pair: "twiceObserved = (fst twiceObserved, snd twiceObserved)"
    by simp
  have base: "filter (\<lambda>r. Disposable (fst r) \<notin> set (subscriptions newView)) (listeners sharedHost)
      = [(0, 1, StateAdded, Foreign 9)]" "nextHandle sharedHost = 1"
    by (simp_all add: sharedHost_def demoHost_def newView_def)
  show ?thesis
    using observe_replaces_subscriptions [OF fresh owned first second diff]
    unfolding base by (subst (4 6) pair) simp
qed

section \<open>Properties of the stateSelected action\<close>

lemma dropPromise_fields:
  "fetchThrows (dropPromise p h) = fetchThrows h"
  "errorMessages (dropPromise p h) = errorMessages h"
  by (simp_all add: dropPromise_def split: outcome.splits)

lemma handleMessage_stateSelected_errorMessages:
  assumes "command_in m = ''stateSelected''"
  shows "errorMessages (snd (handleMessage m view h)) =
     errorMessages h @
       (case fetchThrows h (stateInfo_in m) of
          None \<Rightarrow> []
        | Some ex \<Rightarrow> [''Error while displaying state-plan: '' @ toString_error ex])"
  using assms
  by (auto simp: handleMessage_def Let_def sendRequestToPlanimationApi_def showErrorMessage_def
      dropPromise_fields split: prod.splits option.splits)


text \<open>
  Claim C7, at two inputs where the code departs from it. A state is selected and the
  report generator rejects, or the configured pattern is not a regular expression and
  the scan throws. \<^verbatim>\<open>showStatePlan\<close> and \<^verbatim>\<open>scrollStateLog\<close> are asynchronous and are
  called without \<^verbatim>\<open>await\<close>, so the \<^verbatim>\<open>try\<close> around the calls sees no exception: no
  error message is shown, the rejection is left unhandled, and the third step runs.
\<close>

theorem stateSelected_rejection_not_shown:
  "errorMessages (snd (handleMessage selectState1 (demoView True zeroLog) failingReportHost)) = []
   \<and> unhandledRejections
        (snd (handleMessage selectState1 (demoView True zeroLog) failingReportHost))
      = [Thrown ''report failed'']
   \<and> planimationRequests
        (snd (handleMessage selectState1 (demoView True zeroLog) failingReportHost))
      = [''(visited loc1_1)'']
   \<and> errorMessages (snd (handleMessage selectState1 (demoView True zeroLog) badPatternHost)) = []
   \<and> unhandledRejections
        (snd (handleMessage selectState1 (demoView True zeroLog) badPatternHost))
      = [Thrown ''SyntaxError'']"
  by code_simp

end
